theory Spec2Isabelle
  imports Complex_Main "HOL-Library.Word" "HOL-Library.AList"
begin

section \<open>JavaScript values that come out of JSON.parse\<close>

text \<open>
  A JavaScript string is a sequence of UTF-16 code units. Property names are kept as
  byte strings: the handler only ever compares them with the literals of the source.
\<close>

type_synonym jschar = "16 word"
type_synonym jsstring = "jschar list"

text \<open>
  The values \<open>JSON.parse\<close> can produce. A number is a double: \<open>JNum q\<close> is the finite
  double of value \<open>q\<close> (the two zeros are identified, as \<open>===\<close> and truthiness do),
  \<open>JInf positive\<close> is what a literal such as \<open>1e999\<close> parses to. An object is the list of
  its own properties in enumeration order.
\<close>

datatype json =
    JNull
  | JBool bool
  | JNum rat
  | JInf bool
  | JStr jsstring
  | JArr "json list"
  | JObj "(string \<times> json) list"

text \<open>A value held by a variable of the handler: \<open>None\<close> is \<open>undefined\<close>.\<close>

type_synonym jsval = "json option"

datatype exn = TypeError

text \<open>The code units of an ASCII literal.\<close>

definition utf16 :: "string \<Rightarrow> jsstring" where
  "utf16 s = map of_char s"

text \<open>\<open>!v\<close> is \<open>\<not> truthy v\<close>.\<close>

fun truthy :: "jsval \<Rightarrow> bool" where
  "truthy None = False"
| "truthy (Some JNull) = False"
| "truthy (Some (JBool b)) = b"
| "truthy (Some (JNum q)) = (q \<noteq> 0)"
| "truthy (Some (JInf positive)) = True"
| "truthy (Some (JStr s)) = (s \<noteq> [])"
| "truthy (Some (JArr xs)) = True"
| "truthy (Some (JObj kvs)) = True"

text \<open>
  \<open>a === b\<close> for two values that come from two different \<open>JSON.parse\<close> calls (the
  request body and the file): primitives are compared by value, an array or an object is
  never the same reference as anything on the other side.
\<close>

fun is_reference :: "jsval \<Rightarrow> bool" where
  "is_reference (Some (JArr xs)) = True"
| "is_reference (Some (JObj kvs)) = True"
| "is_reference v = False"

definition strict_equals :: "jsval \<Rightarrow> jsval \<Rightarrow> bool" where
  "strict_equals a b \<longleftrightarrow> a = b \<and> \<not> is_reference a"

text \<open>
  \<open>v.k\<close> for the property names the handler reads (\<open>users\<close>, \<open>username\<close>,
  \<open>password\<close>, \<open>hwid\<close>), none of which a built-in prototype defines: reading from
  \<open>undefined\<close> or \<open>null\<close> throws, an object gives its own property, every other value
  gives \<open>undefined\<close>.
\<close>

fun get_prop :: "jsval \<Rightarrow> string \<Rightarrow> exn + jsval" where
  "get_prop None k = Inl TypeError"
| "get_prop (Some JNull) k = Inl TypeError"
| "get_prop (Some (JObj kvs)) k = Inr (map_of kvs k)"
| "get_prop (Some v) k = Inr None"

text \<open>\<open>String.prototype.trim\<close>: strips WhiteSpace and LineTerminator code points.\<close>

definition is_whitespace :: "jschar \<Rightarrow> bool" where
  "is_whitespace c \<longleftrightarrow>
     c = 0x09 \<or> c = 0x0A \<or> c = 0x0B \<or> c = 0x0C \<or> c = 0x0D \<or> c = 0x20 \<or> c = 0xA0
     \<or> c = 0x1680 \<or> (0x2000 \<le> c \<and> c \<le> 0x200A) \<or> c = 0x2028 \<or> c = 0x2029
     \<or> c = 0x202F \<or> c = 0x205F \<or> c = 0x3000 \<or> c = 0xFEFF"

definition trim :: "jsstring \<Rightarrow> jsstring" where
  "trim s = rev (dropWhile is_whitespace (rev (dropWhile is_whitespace s)))"

text \<open>
  \<open>JSON.parse (JSON.stringify v)\<close> for a value \<open>v\<close> built from parsed values: the
  identity, except that \<open>JSON.stringify\<close> writes an infinite number as \<open>null\<close>.
\<close>

primrec reparse :: "json \<Rightarrow> json" where
  "reparse JNull = JNull"
| "reparse (JBool b) = JBool b"
| "reparse (JNum q) = JNum q"
| "reparse (JInf positive) = JNull"
| "reparse (JStr s) = JStr s"
| "reparse (JArr xs) = JArr (map reparse xs)"
| "reparse (JObj kvs) = JObj (map (map_prod id reparse) kvs)"

section \<open>The file users.json and the calls made on it\<close>

text \<open>
  \<open>Absent\<close>: \<open>fs.existsSync\<close> is false. \<open>Unreadable\<close>: the file exists and
  \<open>fs.readFileSync\<close> or \<open>JSON.parse\<close> throws. \<open>Json v\<close>: the file exists and its text
  parses to \<open>v\<close>.
\<close>

datatype users_file = Absent | Unreadable | Json json

datatype fs_call = ExistsSync | ReadFileSync | WriteFileSync

record world =
  disk :: users_file
  console :: "string list"
  calls :: "fs_call list"

text \<open>
  What \<open>fs.writeFileSync\<close> does when \<open>saveUsers\<close> calls it. It opens the file with
  flag \<open>w\<close>, which truncates it, writes, and closes. An exception raised before the file
  is opened leaves the file as it was; an exception raised later leaves behind whatever
  had reached the file by then.
\<close>

datatype write_env = Succeeds | FailsBeforeOpen | FailsAfterOpen users_file

definition log_error :: "string \<Rightarrow> world \<Rightarrow> world" where
  "log_error msg w = w\<lparr>console := console w @ [msg]\<rparr>"

definition called :: "fs_call \<Rightarrow> world \<Rightarrow> world" where
  "called c w = w\<lparr>calls := calls w @ [c]\<rparr>"

definition empty_store :: json where
  "empty_store = JObj [(''users'', JArr [])]"

definition loadUsers :: "world \<Rightarrow> json \<times> world" where
  "loadUsers w =
     (let w1 = called ExistsSync w in
      case disk w1 of
        Absent \<Rightarrow> (empty_store, w1)
      | Unreadable \<Rightarrow> (empty_store, log_error ''Failed to read users.json:'' (called ReadFileSync w1))
      | Json v \<Rightarrow> (v, called ReadFileSync w1))"

definition saveUsers :: "write_env \<Rightarrow> json \<Rightarrow> world \<Rightarrow> bool \<times> world" where
  "saveUsers wr data w =
     (let w1 = called WriteFileSync w in
      case wr of
        Succeeds \<Rightarrow> (True, w1\<lparr>disk := Json (reparse data)\<rparr>)
      | FailsBeforeOpen \<Rightarrow> (False, log_error ''Failed to write users.json:'' w1)
      | FailsAfterOpen left \<Rightarrow>
          (False, log_error ''Failed to write users.json:'' (w1\<lparr>disk := left\<rparr>)))"

section \<open>POST /login\<close>

datatype outcome =
    MISSING_FIELDS
  | HWID_REQUIRED
  | INVALID_CREDENTIALS
  | SERVER_ERROR
  | HWID_REGISTERED
  | HWID_MISMATCH
  | OK

record response =
  status :: nat
  success :: bool
  code :: outcome
  message :: string

definition reply :: "nat \<Rightarrow> bool \<Rightarrow> outcome \<Rightarrow> string \<Rightarrow> response" where
  "reply st ok c msg = \<lparr>status = st, success = ok, code = c, message = msg\<rparr>"

text \<open>
  \<open>users.find(u => u.username === username)\<close>: the first element whose \<open>username\<close> is
  the given one, with its index (the element is a reference into the array, and the
  handler writes through it); \<open>None\<close> is \<open>undefined\<close>. The callback throws on a
  \<open>null\<close> element.
\<close>

fun find_user :: "json list \<Rightarrow> jsval \<Rightarrow> exn + (nat \<times> json) option" where
  "find_user [] username = Inr None"
| "find_user (u # us) username =
     (case get_prop (Some u) ''username'' of
        Inl e \<Rightarrow> Inl e
      | Inr v \<Rightarrow>
          if strict_equals v username then Inr (Some (0, u))
          else (case find_user us username of
                  Inl e \<Rightarrow> Inl e
                | Inr None \<Rightarrow> Inr None
                | Inr (Some (i, u')) \<Rightarrow> Inr (Some (Suc i, u'))))"

text \<open>
  \<open>data.users.find(...)\<close>: \<open>data.users\<close> has a callable \<open>find\<close> only when it is an
  array.
\<close>

definition users_find :: "json \<Rightarrow> jsval \<Rightarrow> exn + (nat \<times> json) option" where
  "users_find data username =
     (case get_prop (Some data) ''users'' of
        Inl e \<Rightarrow> Inl e
      | Inr (Some (JArr us)) \<Rightarrow> find_user us username
      | Inr other \<Rightarrow> Inl TypeError)"

text \<open>
  \<open>!user.hwid || user.hwid.trim().length === 0\<close>: a truthy value has a callable
  \<open>trim\<close> only when it is a string.
\<close>

definition hwid_unset :: "jsval \<Rightarrow> exn + bool" where
  "hwid_unset stored =
     (if \<not> truthy stored then Inr True
      else (case stored of
              Some (JStr s) \<Rightarrow> Inr (length (trim s) = 0)
            | other \<Rightarrow> Inl TypeError))"

text \<open>
  \<open>user.hwid = hwid\<close>, where \<open>user\<close> is element \<open>i\<close> of \<open>data.users\<close>: the value of
  \<open>data\<close> afterwards. An existing property keeps its place, a new one comes last.
\<close>

definition assign_hwid :: "json \<Rightarrow> json \<Rightarrow> json" where
  "assign_hwid user h =
     (case user of JObj props \<Rightarrow> JObj (AList.update ''hwid'' h props) | other \<Rightarrow> user)"

definition with_user :: "json \<Rightarrow> nat \<Rightarrow> json \<Rightarrow> json" where
  "with_user data i user' =
     (case data of
        JObj kvs \<Rightarrow>
          (case map_of kvs ''users'' of
             Some (JArr us) \<Rightarrow> JObj (AList.update ''users'' (JArr (us[i := user'])) kvs)
           | other \<Rightarrow> data)
      | other \<Rightarrow> data)"

definition missing_fields :: response where
  "missing_fields = reply 400 False MISSING_FIELDS ''username and password are required''"

definition hwid_required :: response where
  "hwid_required = reply 400 False HWID_REQUIRED ''HWID is required''"

definition invalid_credentials :: response where
  "invalid_credentials = reply 401 False INVALID_CREDENTIALS ''Invalid username or password''"

definition server_error :: response where
  "server_error = reply 500 False SERVER_ERROR ''Failed to save HWID''"

definition hwid_registered :: response where
  "hwid_registered =
     reply 200 True HWID_REGISTERED ''First login on this account, HWID registered''"

definition hwid_mismatch :: response where
  "hwid_mismatch =
     reply 403 False HWID_MISMATCH ''This account is already bound to another device''"

definition login_ok :: response where
  "login_ok = reply 200 True OK ''Login successful''"

text \<open>
  The part of the handler after the two validation steps: \<open>h\<close> is the request's
  \<open>hwid\<close>, by then known to be a string.
\<close>

definition authenticate ::
  "write_env \<Rightarrow> jsval \<Rightarrow> jsval \<Rightarrow> jsstring \<Rightarrow> world \<Rightarrow> (exn + response) \<times> world" where
  "authenticate wr username password h w =
     (let (data, w1) = loadUsers w in
      case users_find data username of
        Inl e \<Rightarrow> (Inl e, w1)
      | Inr None \<Rightarrow> (Inr invalid_credentials, w1)
      | Inr (Some (i, user)) \<Rightarrow>
          (case get_prop (Some user) ''password'' of
             Inl e \<Rightarrow> (Inl e, w1)
           | Inr pw \<Rightarrow>
               if \<not> strict_equals pw password then (Inr invalid_credentials, w1)
               else
                 (case get_prop (Some user) ''hwid'' of
                    Inl e \<Rightarrow> (Inl e, w1)
                  | Inr stored \<Rightarrow>
                      (case hwid_unset stored of
                         Inl e \<Rightarrow> (Inl e, w1)
                       | Inr True \<Rightarrow>
                           (let data' = with_user data i (assign_hwid user (JStr h));
                                (ok, w2) = saveUsers wr data' w1
                            in if \<not> ok then (Inr server_error, w2)
                               else (Inr hwid_registered, w2))
                       | Inr False \<Rightarrow>
                           if \<not> strict_equals stored (Some (JStr h))
                           then (Inr hwid_mismatch, w1)
                           else (Inr login_ok, w1)))))"

text \<open>
  The handler. \<open>body\<close> is \<open>req.body\<close>. In the second test, \<open>!hwid\<close> is the empty
  string or any other falsy value, and \<open>typeof hwid !== "string"\<close> is every case but
  \<open>JStr\<close>.
\<close>

definition login :: "write_env \<Rightarrow> jsval \<Rightarrow> world \<Rightarrow> (exn + response) \<times> world" where
  "login wr body w =
     (let b = (if truthy body then body else Some (JObj [])) in
      case get_prop b ''username'' of
        Inl e \<Rightarrow> (Inl e, w)
      | Inr username \<Rightarrow>
     (case get_prop b ''password'' of
        Inl e \<Rightarrow> (Inl e, w)
      | Inr password \<Rightarrow>
     (case get_prop b ''hwid'' of
        Inl e \<Rightarrow> (Inl e, w)
      | Inr hwid \<Rightarrow>
          if \<not> truthy username \<or> \<not> truthy password then (Inr missing_fields, w)
          else
            (case hwid of
               Some (JStr h) \<Rightarrow>
                 if h = [] \<or> length (trim h) = 0 then (Inr hwid_required, w)
                 else authenticate wr username password h w
             | other \<Rightarrow> (Inr hwid_required, w)))))"

text \<open>Requests handled one after the other, each with the file system it meets.\<close>

fun serve :: "(write_env \<times> jsval) list \<Rightarrow> world \<Rightarrow> (exn + response) list \<times> world" where
  "serve [] w = ([], w)"
| "serve ((wr, body) # rest) w =
     (let (r, w1) = login wr body w; (rs, w2) = serve rest w1 in (r # rs, w2))"

section \<open>Vocabulary of the statements\<close>

text \<open>The own property \<open>k\<close> of a value that is not \<open>null\<close>.\<close>

definition prop_of :: "json \<Rightarrow> string \<Rightarrow> jsval" where
  "prop_of u k = (case u of JObj props \<Rightarrow> map_of props k | other \<Rightarrow> None)"

text \<open>The field \<open>k\<close> of a request, \<open>None\<close> when the body has no such field.\<close>

definition request_field :: "jsval \<Rightarrow> string \<Rightarrow> jsval" where
  "request_field body k = (case body of Some v \<Rightarrow> prop_of v k | None \<Rightarrow> None)"

text \<open>A string with no character other than white space (the empty string is one).\<close>

definition blank :: "jsstring \<Rightarrow> bool" where
  "blank s \<longleftrightarrow> list_all is_whitespace s"

text \<open>A request \<open>hwid\<close> that passes step 2: a string with a visible character.\<close>

definition usable_hwid :: "jsval \<Rightarrow> bool" where
  "usable_hwid v = (case v of Some (JStr h) \<Rightarrow> \<not> blank h | other \<Rightarrow> False)"

text \<open>A request that passes steps 1 and 2.\<close>

definition passes_validation :: "jsval \<Rightarrow> bool" where
  "passes_validation body \<longleftrightarrow>
     truthy (request_field body ''username'') \<and> truthy (request_field body ''password'')
     \<and> usable_hwid (request_field body ''hwid'')"

text \<open>A stored \<open>hwid\<close> that the handler takes as not set: absent, falsy, or a blank string.\<close>

definition unbound :: "jsval \<Rightarrow> bool" where
  "unbound v \<longleftrightarrow> \<not> truthy v \<or> (case v of Some (JStr s) \<Rightarrow> blank s | other \<Rightarrow> False)"

text \<open>
  The array of records a load of the file hands to the lookup; \<open>None\<close> when the file
  holds JSON that is not an object with an array under \<open>users\<close>.
\<close>

definition users_on :: "users_file \<Rightarrow> json list option" where
  "users_on d =
     (case d of
        Absent \<Rightarrow> Some []
      | Unreadable \<Rightarrow> Some []
      | Json v \<Rightarrow> (case prop_of v ''users'' of Some (JArr us) \<Rightarrow> Some us | other \<Rightarrow> None))"

text \<open>
  A user record as section 3 of the specification has it: an object whose \<open>hwid\<close> is
  absent, falsy or a string.
\<close>

definition is_record :: "json \<Rightarrow> bool" where
  "is_record u =
     (case u of
        JObj props \<Rightarrow>
          (case map_of props ''hwid'' of
             None \<Rightarrow> True
           | Some (JStr s) \<Rightarrow> True
           | Some v \<Rightarrow> \<not> truthy (Some v))
      | other \<Rightarrow> False)"

text \<open>The record \<open>u\<close> carries the user name \<open>name\<close>.\<close>

definition named :: "jsval \<Rightarrow> json \<Rightarrow> bool" where
  "named name u \<longleftrightarrow> strict_equals (prop_of u ''username'') name"

text \<open>
  Element \<open>i\<close> is the first of \<open>us\<close> that carries \<open>name\<close>, and no element before it is
  \<open>null\<close>.
\<close>

definition first_match :: "json list \<Rightarrow> jsval \<Rightarrow> nat \<Rightarrow> bool" where
  "first_match us name i \<longleftrightarrow>
     i < length us \<and> named name (us ! i)
     \<and> list_all (\<lambda>u. u \<noteq> JNull \<and> \<not> named name u) (take i us)"

text \<open>The \<open>hwid\<close> of record \<open>i\<close> in a loaded store, and in the file.\<close>

definition stored_hwid :: "json \<Rightarrow> nat \<Rightarrow> jsval" where
  "stored_hwid data i =
     (case prop_of data ''users'' of
        Some (JArr us) \<Rightarrow> if i < length us then prop_of (us ! i) ''hwid'' else None
      | other \<Rightarrow> None)"

definition hwid_on_disk :: "users_file \<Rightarrow> nat \<Rightarrow> jsval" where
  "hwid_on_disk d i = (case d of Json data \<Rightarrow> stored_hwid data i | other \<Rightarrow> None)"

text \<open>Record \<open>i\<close> of the store in the file, and its property \<open>k\<close>.\<close>

definition record_on_disk :: "users_file \<Rightarrow> nat \<Rightarrow> json option" where
  "record_on_disk d i =
     (case users_on d of
        Some us \<Rightarrow> if i < length us then Some (us ! i) else None
      | None \<Rightarrow> None)"

definition field_on_disk :: "users_file \<Rightarrow> nat \<Rightarrow> string \<Rightarrow> jsval" where
  "field_on_disk d i k = (case record_on_disk d i of Some u \<Rightarrow> prop_of u k | None \<Rightarrow> None)"

text \<open>The calls on the file system made between the world \<open>w\<close> and the later \<open>w'\<close>.\<close>

definition calls_since :: "world \<Rightarrow> world \<Rightarrow> fs_call list" where
  "calls_since w w' = drop (length (calls w)) (calls w')"


text \<open>The request \<open>body\<close> repeated, once for each file-system behaviour of \<open>envs\<close>.\<close>

definition repeated :: "jsval \<Rightarrow> write_env list \<Rightarrow> (write_env \<times> jsval) list" where
  "repeated body envs = map (\<lambda>wr. (wr, body)) envs"

subsection \<open>The decision order as claim C1 words it\<close>

text \<open>
  The rules in the words of the claim. Only the emptiness of the request's hwid is tested
  after trimming, as section 4.2 of the specification says of step 2.
\<close>

definition absent_or_empty :: "jsval \<Rightarrow> bool" where
  "absent_or_empty v \<longleftrightarrow> v = None \<or> v = Some JNull \<or> v = Some (JStr [])"

definition is_string :: "jsval \<Rightarrow> bool" where
  "is_string v = (case v of Some (JStr s) \<Rightarrow> True | other \<Rightarrow> False)"

definition claimed_outcome :: "jsval \<Rightarrow> jsval \<Rightarrow> jsval \<Rightarrow> json list \<Rightarrow> outcome" where
  "claimed_outcome username password hwid us =
     (if absent_or_empty username \<or> absent_or_empty password then MISSING_FIELDS
      else if absent_or_empty hwid \<or> \<not> is_string hwid \<or> \<not> usable_hwid hwid
      then HWID_REQUIRED
      else
        (case List.find (\<lambda>u. prop_of u ''username'' = username) us of
           None \<Rightarrow> INVALID_CREDENTIALS
         | Some u \<Rightarrow>
             if prop_of u ''password'' \<noteq> password then INVALID_CREDENTIALS
             else if absent_or_empty (prop_of u ''hwid'') then HWID_REGISTERED
             else if prop_of u ''hwid'' \<noteq> hwid then HWID_MISMATCH
             else OK))"

subsection \<open>The example of section 8 of the specification\<close>

definition account :: "string \<Rightarrow> string \<Rightarrow> string \<Rightarrow> json" where
  "account name pw h =
     JObj [(''username'', JStr (utf16 name)), (''password'', JStr (utf16 pw)),
           (''hwid'', JStr (utf16 h))]"

definition request :: "string \<Rightarrow> string \<Rightarrow> string \<Rightarrow> jsval" where
  "request name pw h = Some (account name pw h)"

definition store_of :: "json list \<Rightarrow> json" where
  "store_of us = JObj [(''users'', JArr us)]"

definition world_with :: "users_file \<Rightarrow> world" where
  "world_with d = \<lparr>disk = d, console = [], calls = []\<rparr>"

definition alice_world :: "string \<Rightarrow> world" where
  "alice_world h = world_with (Json (store_of [account ''alice'' ''p1'' h]))"

definition two_accounts :: world where
  "two_accounts =
     world_with (Json (store_of [account ''alice'' ''p1'' ''DEV-1'', account ''bob'' ''p2'' []]))"

section \<open>Facts about the helpers and the handler\<close>

lemma trim_empty_iff: "trim s = [] \<longleftrightarrow> blank s"
proof -
  have "dropWhile is_whitespace (rev (dropWhile is_whitespace s)) = [] \<longleftrightarrow> list_all is_whitespace s"
  proof (cases "dropWhile is_whitespace s")
    case Nil
    have "list_all is_whitespace s"
      using Nil by (simp add: dropWhile_eq_Nil_conv list_all_iff)
    then show ?thesis unfolding Nil by simp
  next
    case (Cons a as)
    then have "\<not> is_whitespace a" using hd_dropWhile[of is_whitespace s] by auto
    moreover have "a \<in> set s" using Cons set_dropWhileD[of a is_whitespace s] by simp
    ultimately show ?thesis using Cons by (auto simp: dropWhile_eq_Nil_conv list_all_iff)
  qed
  then show ?thesis by (simp add: trim_def blank_def)
qed

lemma body_fields:
  "get_prop (if truthy body then body else Some (JObj [])) k = Inr (request_field body k)"
proof (cases body)
  case None
  then show ?thesis by (simp add: request_field_def)
next
  case (Some v)
  then show ?thesis by (cases v) (simp_all add: request_field_def prop_of_def)
qed

lemma blank_iff: "(h = [] \<or> length (trim h) = 0) = blank h"
  by (cases "h = []") (simp_all add: trim_empty_iff blank_def)

lemma login_unfolded:
  "login wr body w =
     (if \<not> truthy (request_field body ''username'') \<or> \<not> truthy (request_field body ''password'')
      then (Inr missing_fields, w)
      else (case request_field body ''hwid'' of
              Some (JStr h) \<Rightarrow>
                if h = [] \<or> length (trim h) = 0 then (Inr hwid_required, w)
                else authenticate wr (request_field body ''username'')
                       (request_field body ''password'') h w
            | other \<Rightarrow> (Inr hwid_required, w)))"
  unfolding login_def Let_def body_fields sum.case ..

lemma login_steps:
  "login wr body w =
     (if \<not> truthy (request_field body ''username'') \<or> \<not> truthy (request_field body ''password'')
      then (Inr missing_fields, w)
      else (case request_field body ''hwid'' of
              Some (JStr h) \<Rightarrow>
                if blank h then (Inr hwid_required, w)
                else authenticate wr (request_field body ''username'')
                       (request_field body ''password'') h w
            | other \<Rightarrow> (Inr hwid_required, w)))"
  unfolding login_unfolded blank_iff ..

lemma loadUsers_disk: "disk (snd (loadUsers w)) = disk w"
  by (simp add: loadUsers_def called_def log_error_def Let_def split: users_file.splits)

lemma loadUsers_data:
  "fst (loadUsers w) = (case disk w of Json v \<Rightarrow> v | other \<Rightarrow> empty_store)"
  by (simp add: loadUsers_def called_def Let_def split: users_file.splits)

lemma loadUsers_calls:
  "calls (snd (loadUsers w)) =
     calls w @ (if disk w = Absent then [ExistsSync] else [ExistsSync, ReadFileSync])"
  by (simp add: loadUsers_def called_def log_error_def Let_def split: users_file.splits)

lemma get_prop_not_null: "u \<noteq> JNull \<Longrightarrow> get_prop (Some u) k = Inr (prop_of u k)"
  by (cases u) (simp_all add: prop_of_def)

lemma users_find_loaded:
  "users_on (disk w) = Some us \<Longrightarrow> users_find (fst (loadUsers w)) name = find_user us name"
  by (auto simp: users_on_def loadUsers_data users_find_def empty_store_def prop_of_def
      split: users_file.splits json.splits option.splits)

lemma users_find_malformed:
  "users_on (disk w) = None \<Longrightarrow> users_find (fst (loadUsers w)) name = Inl TypeError"
  by (auto simp: users_on_def loadUsers_data users_find_def prop_of_def
      split: users_file.splits json.splits option.splits)

lemma find_user_sound:
  "find_user us name = Inr (Some (i, u)) \<Longrightarrow>
     i < length us \<and> us ! i = u \<and> u \<noteq> JNull \<and> named name u"
proof (induction us arbitrary: i)
  case Nil
  then show ?case by simp
next
  case (Cons a us)
  show ?case
  proof (cases "a = JNull")
    case True
    with Cons.prems show ?thesis by simp
  next
    case False
    note a = get_prop_not_null[OF False, of "''username''"]
    show ?thesis
    proof (cases "strict_equals (prop_of a ''username'') name")
      case True
      with Cons.prems a False show ?thesis by (simp add: named_def)
    next
      case ne: False
      with Cons.prems a obtain j where j: "find_user us name = Inr (Some (j, u))" "i = Suc j"
        by (auto split: sum.splits option.splits)
      from Cons.IH[OF j(1)] j(2) show ?thesis by simp
    qed
  qed
qed

lemma named_not_null: "name \<noteq> None \<Longrightarrow> named name u \<Longrightarrow> u \<noteq> JNull"
  by (auto simp: named_def strict_equals_def prop_of_def)

lemma find_user_first:
  "name \<noteq> None \<Longrightarrow> first_match us name i \<Longrightarrow> find_user us name = Inr (Some (i, us ! i))"
proof (induction us arbitrary: i)
  case Nil
  then show ?case by (simp add: first_match_def)
next
  case (Cons a us)
  show ?case
  proof (cases i)
    case 0
    with Cons.prems have n: "named name a" by (simp add: first_match_def)
    then have "a \<noteq> JNull" using Cons.prems(1) by (rule named_not_null[rotated])
    with n 0 show ?thesis by (simp add: get_prop_not_null named_def)
  next
    case (Suc j)
    with Cons.prems have a: "a \<noteq> JNull" "\<not> named name a" and j: "first_match us name j"
      by (simp_all add: first_match_def)
    from Cons.IH[OF Cons.prems(1) j] a Suc show ?thesis by (simp add: get_prop_not_null named_def)
  qed
qed

lemma login_validated:
  "passes_validation body \<Longrightarrow>
   \<exists>h. request_field body ''hwid'' = Some (JStr h) \<and> \<not> blank h \<and>
     login wr body w =
       authenticate wr (request_field body ''username'') (request_field body ''password'') h w"
  by (auto simp: passes_validation_def usable_hwid_def login_steps
      split: option.splits json.splits)

lemma authenticate_no_users:
  "users_on (disk w) = Some [] \<Longrightarrow>
   authenticate wr name pw h w = (Inr invalid_credentials, snd (loadUsers w))"
  using users_find_loaded[of w "[]" name]
  by (simp add: authenticate_def split_beta)

lemma authenticate_malformed:
  "users_on (disk w) = None \<Longrightarrow> authenticate wr name pw h w = (Inl TypeError, snd (loadUsers w))"
  using users_find_malformed[of w name]
  by (simp add: authenticate_def split_beta)

lemma login_empty_store:
  assumes "disk w = Absent \<or> disk w = Unreadable" "passes_validation body"
  shows "fst (login wr body w) = Inr invalid_credentials"
    and "disk (snd (login wr body w)) = disk w"
proof -
  from assms(1) have u: "users_on (disk w) = Some []" by (auto simp: users_on_def)
  from login_validated[OF assms(2), of wr w] authenticate_no_users[OF u]
  show "fst (login wr body w) = Inr invalid_credentials"
    and "disk (snd (login wr body w)) = disk w"
    by (auto simp: loadUsers_disk)
qed

lemma exn_TypeError: "(e::exn) = TypeError"
  by (cases e)

lemma saveUsers_ok: "fst (saveUsers wr data w) \<longleftrightarrow> wr = Succeeds"
  by (simp add: saveUsers_def Let_def split: write_env.splits)

lemma authenticate_shape:
  assumes "authenticate wr name pw h w = (r, w')"
  shows "(w' = snd (loadUsers w) \<and>
           (r = Inl TypeError \<or> r = Inr invalid_credentials \<or> r = Inr hwid_mismatch \<or> r = Inr login_ok))
       \<or> (\<exists>data'. w' = snd (saveUsers wr data' (snd (loadUsers w))) \<and>
             r = Inr (if wr = Succeeds then hwid_registered else server_error))"
  using assms
  by (cases "loadUsers w")
     (auto simp: authenticate_def saveUsers_ok split_beta exn_TypeError
       split: sum.splits option.splits bool.splits if_splits)

lemma login_stopped:
  assumes "\<not> passes_validation body"
  shows "login wr body w =
     (Inr (if \<not> truthy (request_field body ''username'') \<or> \<not> truthy (request_field body ''password'')
           then missing_fields else hwid_required), w)"
proof (cases "request_field body ''hwid''")
  case None
  then show ?thesis by (simp add: login_steps)
next
  case (Some v)
  with assms show ?thesis
    by (cases v) (auto simp: login_steps passes_validation_def usable_hwid_def)
qed

lemma response_codes:
  "code missing_fields = MISSING_FIELDS" "code hwid_required = HWID_REQUIRED"
  "code invalid_credentials = INVALID_CREDENTIALS" "code server_error = SERVER_ERROR"
  "code hwid_registered = HWID_REGISTERED" "code hwid_mismatch = HWID_MISMATCH"
  "code login_ok = OK"
  by (simp_all add: missing_fields_def hwid_required_def invalid_credentials_def server_error_def
      hwid_registered_def hwid_mismatch_def login_ok_def reply_def)

lemma hwid_unset_eq:
  "hwid_unset v =
     (if unbound v then Inr True else if is_string v then Inr False else Inl TypeError)"
proof (cases v)
  case None
  then show ?thesis by (simp add: hwid_unset_def unbound_def)
next
  case (Some j)
  then show ?thesis
    by (cases j) (auto simp: hwid_unset_def unbound_def is_string_def trim_empty_iff)
qed

lemma loaded_users:
  "users_on (disk w) = Some us \<Longrightarrow> prop_of (fst (loadUsers w)) ''users'' = Some (JArr us)"
  by (auto simp: users_on_def loadUsers_data empty_store_def prop_of_def
      split: users_file.splits json.splits option.splits)

lemma authenticate_found:
  assumes "users_on (disk w) = Some us" and "find_user us name = Inr (Some (i, u))"
  shows "authenticate wr name pw h w =
     (if \<not> strict_equals (prop_of u ''password'') pw
      then (Inr invalid_credentials, snd (loadUsers w))
      else if unbound (prop_of u ''hwid'')
      then (Inr (if wr = Succeeds then hwid_registered else server_error),
            snd (saveUsers wr (with_user (fst (loadUsers w)) i (assign_hwid u (JStr h)))
                   (snd (loadUsers w))))
      else if \<not> is_string (prop_of u ''hwid'') then (Inl TypeError, snd (loadUsers w))
      else if prop_of u ''hwid'' \<noteq> Some (JStr h) then (Inr hwid_mismatch, snd (loadUsers w))
      else (Inr login_ok, snd (loadUsers w)))"
proof -
  from find_user_sound[OF assms(2)] have "u \<noteq> JNull" by simp
  then have g: "\<And>k. get_prop (Some u) k = Inr (prop_of u k)" by (rule get_prop_not_null)
  have s: "is_string (prop_of u ''hwid'') \<Longrightarrow>
      strict_equals (prop_of u ''hwid'') (Some (JStr h)) \<longleftrightarrow> prop_of u ''hwid'' = Some (JStr h)"
    by (auto simp: strict_equals_def)
  from users_find_loaded[OF assms(1), of name] assms(2)
  have f: "users_find (fst (loadUsers w)) name = Inr (Some (i, u))" by simp
  show ?thesis
    by (simp add: authenticate_def split_beta f g hwid_unset_eq saveUsers_ok s)
qed

lemma authenticate_not_found:
  assumes "users_on (disk w) = Some us" and "find_user us name = Inr None"
  shows "authenticate wr name pw h w = (Inr invalid_credentials, snd (loadUsers w))"
  using users_find_loaded[OF assms(1), of name] assms(2)
  by (simp add: authenticate_def split_beta)

lemma authenticate_lookup_throws:
  assumes "users_on (disk w) = Some us" and "find_user us name = Inl e"
  shows "authenticate wr name pw h w = (Inl e, snd (loadUsers w))"
  using users_find_loaded[OF assms(1), of name] assms(2)
  by (simp add: authenticate_def split_beta)

lemma map_of_reparse:
  "map_of (map (map_prod id reparse) kvs) k = map_option reparse (map_of kvs k)"
  by (induction kvs) auto

lemma prop_of_reparse: "prop_of (reparse v) k = map_option reparse (prop_of v k)"
  by (cases v) (simp_all add: prop_of_def map_of_reparse)

lemma stored_hwid_reparse: "stored_hwid (reparse data) i = map_option reparse (stored_hwid data i)"
proof (cases "prop_of data ''users''")
  case None
  then show ?thesis by (simp add: stored_hwid_def prop_of_reparse)
next
  case (Some v)
  then show ?thesis
    by (cases v) (simp_all add: stored_hwid_def prop_of_reparse)
qed

lemma with_user_users:
  "prop_of data ''users'' = Some (JArr us) \<Longrightarrow>
   prop_of (with_user data i u') ''users'' = Some (JArr (us[i := u']))"
  by (cases data) (simp_all add: prop_of_def with_user_def update_conv')

lemma stored_hwid_with_user:
  assumes "prop_of data ''users'' = Some (JArr us)" "i < length us"
  shows "stored_hwid (with_user data i u') j =
     (if j = i then prop_of u' ''hwid'' else stored_hwid data j)"
  using assms by (simp add: stored_hwid_def with_user_users)

lemma assign_hwid_object:
  "prop_of (assign_hwid (JObj props) v) ''hwid'' = Some v"
  by (simp add: assign_hwid_def prop_of_def update_conv')

lemma named_object: "name \<noteq> None \<Longrightarrow> named name u \<Longrightarrow> \<exists>props. u = JObj props"
  by (cases u) (auto simp: named_def strict_equals_def prop_of_def)

lemma validated_name: "passes_validation body \<Longrightarrow> request_field body ''username'' \<noteq> None"
  by (cases "request_field body ''username''") (simp_all add: passes_validation_def)

lemma saveUsers_disk:
  "disk (snd (saveUsers wr data w)) =
     (case wr of Succeeds \<Rightarrow> Json (reparse data) | FailsBeforeOpen \<Rightarrow> disk w
      | FailsAfterOpen left \<Rightarrow> left)"
  by (simp add: saveUsers_def called_def log_error_def Let_def split: write_env.splits)

lemma saveUsers_calls: "calls (snd (saveUsers wr data w)) = calls w @ [WriteFileSync]"
  by (simp add: saveUsers_def called_def log_error_def Let_def split: write_env.splits)

lemma registration:
  assumes "users_on (disk w) = Some us"
    and "passes_validation body" and "request_field body ''hwid'' = Some (JStr h)"
    and "first_match us (request_field body ''username'') i"
    and "strict_equals (prop_of (us ! i) ''password'') (request_field body ''password'')"
    and "unbound (prop_of (us ! i) ''hwid'')"
  shows "login wr body w =
     (Inr (if wr = Succeeds then hwid_registered else server_error),
      snd (saveUsers wr (with_user (fst (loadUsers w)) i (assign_hwid (us ! i) (JStr h)))
             (snd (loadUsers w))))"
proof -
  from assms(2) have n: "request_field body ''username'' \<noteq> None"
    by (rule validated_name)
  from login_validated[OF assms(2), of wr w] assms(3)
  have l: "login wr body w =
       authenticate wr (request_field body ''username'') (request_field body ''password'') h w"
    by simp
  from find_user_first[OF n assms(4)] authenticate_found[OF assms(1)] assms(5,6)
  show ?thesis unfolding l by simp
qed

lemma registered_on_disk:
  assumes "users_on (disk w) = Some us" and "i < length us" and "us ! i = JObj props"
  shows "hwid_on_disk (disk (snd (saveUsers Succeeds
            (with_user (fst (loadUsers w)) i (assign_hwid (us ! i) (JStr h))) w1))) i
         = Some (JStr h)"
  using stored_hwid_with_user[OF loaded_users[OF assms(1)] assms(2), of "assign_hwid (JObj props) (JStr h)" i]
    assms(3)
  by (simp add: saveUsers_disk hwid_on_disk_def stored_hwid_reparse assign_hwid_object)

lemma first_match_object:
  assumes "name \<noteq> None" "first_match us name i"
  shows "i < length us \<and> (\<exists>props. us ! i = JObj props)"
  using assms named_object[of name "us ! i"] by (simp add: first_match_def)

lemma authenticate_same_disk:
  assumes "disk w = disk v"
  shows "fst (authenticate wr name pw h w) = fst (authenticate wr name pw h v)
    \<and> disk (snd (authenticate wr name pw h w)) = disk (snd (authenticate wr name pw h v))"
proof -
  from assms have d: "fst (loadUsers w) = fst (loadUsers v)"
    "disk (snd (loadUsers w)) = disk (snd (loadUsers v))"
    by (simp_all add: loadUsers_data loadUsers_disk)
  show ?thesis
    unfolding authenticate_def split_beta d(1) Let_def
    by (simp add: loadUsers_disk assms saveUsers_ok saveUsers_disk
        split: sum.splits option.splits bool.splits prod.splits write_env.splits)
qed

lemma login_same_disk:
  assumes "disk w = disk v"
  shows "fst (login wr body w) = fst (login wr body v)
    \<and> disk (snd (login wr body w)) = disk (snd (login wr body v))"
proof (cases "passes_validation body")
  case True
  from login_validated[OF True, of wr w] login_validated[OF True, of wr v]
    authenticate_same_disk[OF assms]
  show ?thesis by auto
next
  case False
  from login_stopped[OF False, of wr w] login_stopped[OF False, of wr v] assms
  show ?thesis by simp
qed

lemma authenticate_ok_any_env:
  assumes "fst (authenticate wr name pw h w) = Inr r" and "code r = OK"
  shows "authenticate wr' name pw h w = (Inr login_ok, snd (loadUsers w))"
proof (cases "users_on (disk w)")
  case None
  from authenticate_malformed[OF None, of wr name pw h] assms(1) show ?thesis by simp
next
  case (Some us)
  show ?thesis
  proof (cases "find_user us name")
    case (Inl e)
    from authenticate_lookup_throws[OF Some Inl, of wr pw h] assms(1) show ?thesis by simp
  next
    case (Inr found)
    show ?thesis
    proof (cases found)
      case None
      from authenticate_not_found[OF Some Inr[unfolded None], of wr pw h] assms
      show ?thesis by (auto simp: response_codes)
    next
      case (Some iu)
      obtain i u where iu: "iu = (i, u)" by (cases iu)
      note f = authenticate_found[OF \<open>users_on (disk w) = Some us\<close> Inr[unfolded Some iu]]
      from f[of wr pw h] assms f[of wr' pw h] show ?thesis
        by (auto simp: response_codes split: if_splits)
    qed
  qed
qed

lemma login_ok_again:
  assumes "fst (login wr body w) = Inr r" and "code r = OK" and "disk v = disk w"
  shows "fst (login wr' body v) = Inr login_ok \<and> disk (snd (login wr' body v)) = disk w"
proof (cases "passes_validation body")
  case False
  from login_stopped[OF False, of wr w] assms(1,2) show ?thesis
    by (auto simp: response_codes split: if_splits)
next
  case True
  from login_validated[OF True, of wr w] login_validated[OF True, of wr' w]
  obtain h where l: "login wr body w =
       authenticate wr (request_field body ''username'') (request_field body ''password'') h w"
    "login wr' body w =
       authenticate wr' (request_field body ''username'') (request_field body ''password'') h w"
    by auto
  from authenticate_ok_any_env[of wr _ _ h w r wr'] assms(1,2) l
  have "login wr' body w = (Inr login_ok, snd (loadUsers w))" by simp
  with login_same_disk[OF assms(3), of wr' body] show ?thesis
    by (simp add: loadUsers_disk)
qed

lemma serve_repeated_ok:
  assumes "fst (login wr body w) = Inr r" and "code r = OK" and "disk v = disk w"
  shows "list_all (\<lambda>x. x = Inr login_ok) (fst (serve (repeated body envs) v))
    \<and> length (fst (serve (repeated body envs) v)) = length envs
    \<and> disk (snd (serve (repeated body envs) v)) = disk w"
  using assms(3)
proof (induction envs arbitrary: v)
  case Nil
  then show ?case by (simp add: repeated_def)
next
  case (Cons e envs)
  note a = login_ok_again[OF assms(1,2) Cons.prems, of e]
  from a have "disk (snd (login e body v)) = disk w" by simp
  from Cons.IH[OF this] a show ?case
    by (simp add: repeated_def split_beta)
qed



lemma find_user_find:
  "list_all (\<lambda>u. u \<noteq> JNull) us \<Longrightarrow>
   \<exists>r. find_user us name = Inr r \<and> map_option snd r = List.find (named name) us"
proof (induction us)
  case Nil
  then show ?case by simp
next
  case (Cons a us)
  then have a: "a \<noteq> JNull" and "list_all (\<lambda>u. u \<noteq> JNull) us" by simp_all
  from Cons.IH[OF this(2)] obtain r where
    r: "find_user us name = Inr r" "map_option snd r = List.find (named name) us" by blast
  show ?case
  proof (cases "named name a")
    case True
    with a show ?thesis by (simp add: get_prop_not_null named_def[symmetric])
  next
    case False
    with a r show ?thesis
      by (cases r) (auto simp: get_prop_not_null named_def[symmetric])
  qed
qed

lemma is_record_hwid:
  "is_record u \<Longrightarrow> u \<noteq> JNull \<and> (unbound (prop_of u ''hwid'') \<or> is_string (prop_of u ''hwid''))"
proof (cases u)
  case (JObj props)
  assume "is_record u"
  with JObj show ?thesis
    by (cases "map_of props ''hwid''")
      (auto simp: is_record_def prop_of_def unbound_def is_string_def split: json.splits)
qed (simp_all add: is_record_def)

lemma users_on_reparse:
  "prop_of data ''users'' = Some (JArr us) \<Longrightarrow> users_on (Json (reparse data)) = Some (map reparse us)"
  by (simp add: users_on_def prop_of_reparse)

lemma prop_of_assign_hwid:
  "prop_of (assign_hwid (JObj props) v) k = (if k = ''hwid'' then Some v else map_of props k)"
  by (simp add: assign_hwid_def prop_of_def update_conv')

lemma registration_written:
  assumes "users_on (disk w) = Some us" and "i < length us" and "us ! i = JObj props"
  shows "users_on (disk (snd (saveUsers Succeeds
            (with_user (fst (loadUsers w)) i (assign_hwid (us ! i) v)) w1)))
         = Some (map reparse (us[i := assign_hwid (JObj props) v]))"
  using users_on_reparse[OF with_user_users[OF loaded_users[OF assms(1)], of i "assign_hwid (JObj props) v"]]
    assms(3)
  by (simp add: saveUsers_disk)

lemma registered_fields:
  assumes "users_on (disk w) = Some us" and "i < length us" and "us ! i = JObj props"
    and "d' = disk (snd (saveUsers Succeeds
            (with_user (fst (loadUsers w)) i (assign_hwid (us ! i) v)) w1))"
  shows "field_on_disk d' i k =
           (if k = ''hwid'' then Some (reparse v) else map_option reparse (prop_of (us ! i) k))"
    and "j \<noteq> i \<Longrightarrow> record_on_disk d' j = map_option reparse (record_on_disk (disk w) j)"
proof -
  note u = registration_written[OF assms(1-3), of v w1, folded assms(4)]
  from u assms(2,3) show "field_on_disk d' i k =
           (if k = ''hwid'' then Some (reparse v) else map_option reparse (prop_of (us ! i) k))"
    by (simp add: field_on_disk_def record_on_disk_def prop_of_reparse prop_of_assign_hwid)
      (simp add: prop_of_def)
  assume "j \<noteq> i"
  with u assms(1) show "record_on_disk d' j = map_option reparse (record_on_disk (disk w) j)"
    by (simp add: record_on_disk_def)
qed

text \<open>The definitions that evaluate the handler on the examples.\<close>

lemmas example_defs =
  world_with_def store_of_def account_def request_def utf16_def request_field_def prop_of_def
  users_on_def is_record_def passes_validation_def usable_hwid_def blank_def is_whitespace_def
  named_def strict_equals_def unbound_def first_match_def alice_world_def two_accounts_def

lemmas handler_defs =
  login_def authenticate_def trim_def loadUsers_def saveUsers_def called_def log_error_def
  users_find_def hwid_unset_def with_user_def assign_hwid_def

section \<open>The claims\<close>

text \<open>
  Claim C1, as amended: when the file is absent, unreadable, or holds an object whose
  \<open>users\<close> is an array of records, the login answers with exactly one response, chosen by
  the first rule that applies: \<open>MISSING_FIELDS\<close> if username or password is absent, empty
  or otherwise falsy; else \<open>HWID_REQUIRED\<close> if hwid is not a string with a non-whitespace
  character; else \<open>INVALID_CREDENTIALS\<close> if no record carries the username or the first
  that does has another password; else, if that record's hwid is absent, falsy or only
  white space, \<open>HWID_REGISTERED\<close> when the write succeeds and \<open>SERVER_ERROR\<close> when it
  fails; else \<open>HWID_MISMATCH\<close> if the stored hwid differs from the supplied one; else
  \<open>OK\<close>.
\<close>

theorem login_decision_order:
  assumes "users_on (disk w) = Some us" and "list_all is_record us"
  shows "fst (login wr body w) = Inr
     (if \<not> truthy (request_field body ''username'') \<or> \<not> truthy (request_field body ''password'')
      then missing_fields
      else if \<not> usable_hwid (request_field body ''hwid'') then hwid_required
      else
        (case List.find (named (request_field body ''username'')) us of
           None \<Rightarrow> invalid_credentials
         | Some u \<Rightarrow>
             if \<not> strict_equals (prop_of u ''password'') (request_field body ''password'')
             then invalid_credentials
             else if unbound (prop_of u ''hwid'')
             then (if wr = Succeeds then hwid_registered else server_error)
             else if prop_of u ''hwid'' \<noteq> request_field body ''hwid'' then hwid_mismatch
             else login_ok))"
proof (cases "passes_validation body")
  case False
  from login_stopped[OF False, of wr w] False show ?thesis
    by (auto simp: passes_validation_def)
next
  case True
  from login_validated[OF True, of wr w] obtain h where
    h: "request_field body ''hwid'' = Some (JStr h)" and l: "login wr body w =
       authenticate wr (request_field body ''username'') (request_field body ''password'') h w"
    by auto
  from True have v: "truthy (request_field body ''username'')"
    "truthy (request_field body ''password'')" "usable_hwid (request_field body ''hwid'')"
    by (simp_all add: passes_validation_def)
  from assms(2) have "list_all (\<lambda>u. u \<noteq> JNull) us"
    using is_record_hwid by (auto simp: list_all_iff)
  from find_user_find[OF this, of "request_field body ''username''"] obtain r where
    r: "find_user us (request_field body ''username'') = Inr r"
      "map_option snd r = List.find (named (request_field body ''username'')) us" by blast
  show ?thesis
  proof (cases r)
    case None
    with r authenticate_not_found[OF assms(1), of "request_field body ''username''"] l v
    show ?thesis by simp
  next
    case (Some iu)
    obtain i u where iu: "iu = (i, u)" by (cases iu)
    from r Some iu have f: "find_user us (request_field body ''username'') = Inr (Some (i, u))"
      and fu: "List.find (named (request_field body ''username'')) us = Some u" by simp_all
    from find_user_sound[OF f] have "u \<in> set us" by (auto simp: set_conv_nth)
    with assms(2) have "is_record u" by (simp add: list_all_iff)
    from is_record_hwid[OF this]
    have s: "unbound (prop_of u ''hwid'') \<or> is_string (prop_of u ''hwid'')" by simp
    have "is_string (Some (JStr h))" by (simp add: is_string_def)
    with authenticate_found[OF assms(1) f, of wr "request_field body ''password''" h] l v fu s h
    show ?thesis by auto
  qed
qed

theorem login_decision_order_witness:
  "fst (login Succeeds (request ''alice'' ''p1'' ''DEV-1'') (alice_world []))
     = Inr hwid_registered
   \<and> fst (login FailsBeforeOpen (request ''alice'' ''p1'' ''DEV-1'') (alice_world []))
     = Inr server_error
   \<and> fst (login Succeeds (request ''alice'' ''p1'' ''DEV-2'') (alice_world ''DEV-1''))
     = Inr hwid_mismatch
   \<and> fst (login Succeeds (request ''alice'' ''wrong'' ''DEV-1'') (alice_world ''DEV-1''))
     = Inr invalid_credentials
   \<and> fst (login Succeeds (request ''alice'' ''p1'' ''DEV-1'') (alice_world ''DEV-1''))
     = Inr login_ok"
  using
    login_decision_order[of "alice_world []" "[account ''alice'' ''p1'' []]" Succeeds
      "request ''alice'' ''p1'' ''DEV-1''"]
    login_decision_order[of "alice_world []" "[account ''alice'' ''p1'' []]" FailsBeforeOpen
      "request ''alice'' ''p1'' ''DEV-1''"]
    login_decision_order[of "alice_world ''DEV-1''" "[account ''alice'' ''p1'' ''DEV-1'']"
      Succeeds "request ''alice'' ''p1'' ''DEV-2''"]
    login_decision_order[of "alice_world ''DEV-1''" "[account ''alice'' ''p1'' ''DEV-1'']"
      Succeeds "request ''alice'' ''wrong'' ''DEV-1''"]
    login_decision_order[of "alice_world ''DEV-1''" "[account ''alice'' ''p1'' ''DEV-1'']"
      Succeeds "request ''alice'' ''p1'' ''DEV-1''"]
  by (simp add: example_defs)

text \<open>
  Claim C1 as it is worded fails in three places. With a file that holds the JSON array
  \<open>[]\<close> the handler throws and gives no outcome code. With the record of alice unbound
  and a write that fails, the handler answers \<open>SERVER_ERROR\<close> where the claimed order has
  \<open>HWID_REGISTERED\<close>. With the stored hwid a single space, the handler answers
  \<open>HWID_REGISTERED\<close> where the claimed order has \<open>HWID_MISMATCH\<close>.
\<close>

theorem login_decision_order_counterexample:
  "fst (login Succeeds (request ''alice'' ''p1'' ''DEV-1'') (world_with (Json (JArr []))))
     = Inl TypeError
   \<and> fst (login FailsBeforeOpen (request ''alice'' ''p1'' ''DEV-1'') (alice_world []))
     = Inr server_error
   \<and> claimed_outcome (Some (JStr (utf16 ''alice''))) (Some (JStr (utf16 ''p1'')))
        (Some (JStr (utf16 ''DEV-1''))) [account ''alice'' ''p1'' []] = HWID_REGISTERED
   \<and> fst (login Succeeds (request ''alice'' ''p1'' ''DEV-1'') (alice_world '' ''))
     = Inr hwid_registered
   \<and> claimed_outcome (Some (JStr (utf16 ''alice''))) (Some (JStr (utf16 ''p1'')))
        (Some (JStr (utf16 ''DEV-1''))) [account ''alice'' ''p1'' '' ''] = HWID_MISMATCH"
  by (simp add: example_defs handler_defs claimed_outcome_def absent_or_empty_def is_string_def)

text \<open>
  Claim C2, as amended: when the first record that carries the request's username has the
  request's password and an empty hwid (absent, \<open>null\<close> or the empty string), a request
  that passes steps 1 and 2 is answered \<open>HWID_REGISTERED\<close> when the write succeeds and
  \<open>SERVER_ERROR\<close> when it fails. After a write that succeeded, the next load of the store
  shows that record's hwid equal to the supplied string, untrimmed; every other property
  of the record, and every other record, is what the file gives back of the one that was
  there. After a write that failed before the file was opened, the file is as it was.
\<close>

theorem first_login_registers:
  assumes "users_on (disk w) = Some us"
    and "passes_validation body" and "request_field body ''hwid'' = Some (JStr h)"
    and "first_match us (request_field body ''username'') i"
    and "strict_equals (prop_of (us ! i) ''password'') (request_field body ''password'')"
    and "\<not> truthy (prop_of (us ! i) ''hwid'')"
  shows "fst (login wr body w) = Inr (if wr = Succeeds then hwid_registered else server_error)
    \<and> (wr = Succeeds \<longrightarrow>
         stored_hwid (fst (loadUsers (snd (login wr body w)))) i = Some (JStr h)
         \<and> (\<forall>k. k \<noteq> ''hwid'' \<longrightarrow>
              field_on_disk (disk (snd (login wr body w))) i k
                = map_option reparse (prop_of (us ! i) k))
         \<and> (\<forall>j. j \<noteq> i \<longrightarrow>
              record_on_disk (disk (snd (login wr body w))) j
                = map_option reparse (record_on_disk (disk w) j)))
    \<and> (wr = FailsBeforeOpen \<longrightarrow> disk (snd (login wr body w)) = disk w)"
proof -
  from assms(2) have n: "request_field body ''username'' \<noteq> None"
    by (rule validated_name)
  from first_match_object[OF n assms(4)] obtain props where
    i: "i < length us" "us ! i = JObj props" by blast
  from assms(6) have u: "unbound (prop_of (us ! i) ''hwid'')" by (simp add: unbound_def)
  note r = registration[OF assms(1-5) u, of wr]
  have a: "fst (login wr body w) = Inr (if wr = Succeeds then hwid_registered else server_error)"
    unfolding r by simp
  have b: "wr = FailsBeforeOpen \<Longrightarrow> disk (snd (login wr body w)) = disk w"
    unfolding r by (simp add: saveUsers_disk loadUsers_disk)
  have c: "stored_hwid (fst (loadUsers (snd (login wr body w)))) i = Some (JStr h)
         \<and> (\<forall>k. k \<noteq> ''hwid'' \<longrightarrow>
              field_on_disk (disk (snd (login wr body w))) i k
                = map_option reparse (prop_of (us ! i) k))
         \<and> (\<forall>j. j \<noteq> i \<longrightarrow>
              record_on_disk (disk (snd (login wr body w))) j
                = map_option reparse (record_on_disk (disk w) j))" if s: "wr = Succeeds"
  proof -
    have w': "disk (snd (login wr body w)) = disk (snd (saveUsers Succeeds
            (with_user (fst (loadUsers w)) i (assign_hwid (us ! i) (JStr h))) (snd (loadUsers w))))"
      using r s by simp
    from registered_on_disk[OF assms(1) i, of h "snd (loadUsers w)"]
    have "\<exists>data. disk (snd (login wr body w)) = Json data \<and> stored_hwid data i = Some (JStr h)"
      unfolding w' by (auto simp: hwid_on_disk_def split: users_file.splits)
    then have "stored_hwid (fst (loadUsers (snd (login wr body w)))) i = Some (JStr h)"
      by (auto simp: loadUsers_data)
    with registered_fields[OF assms(1) i w'] show ?thesis by simp
  qed
  from a b c show ?thesis by blast
qed

theorem first_login_registers_witness:
  "fst (login Succeeds (request ''alice'' ''p1'' '' DEV-1 '') (alice_world []))
     = Inr hwid_registered
   \<and> stored_hwid
        (fst (loadUsers (snd (login Succeeds (request ''alice'' ''p1'' '' DEV-1 '')
                                (alice_world []))))) 0
     = Some (JStr (utf16 '' DEV-1 ''))
   \<and> trim (utf16 '' DEV-1 '') = utf16 ''DEV-1''
   \<and> field_on_disk
        (disk (snd (login Succeeds (request ''alice'' ''p1'' '' DEV-1 '') (alice_world []))))
        0 ''username''
     = Some (JStr (utf16 ''alice''))
   \<and> field_on_disk
        (disk (snd (login Succeeds (request ''alice'' ''p1'' '' DEV-1 '') (alice_world []))))
        0 ''password''
     = Some (JStr (utf16 ''p1''))
   \<and> fst (login Succeeds (request ''bob'' ''p2'' ''DEV-9'') two_accounts) = Inr hwid_registered
   \<and> record_on_disk (disk (snd (login Succeeds (request ''bob'' ''p2'' ''DEV-9'') two_accounts))) 0
     = Some (account ''alice'' ''p1'' ''DEV-1'')
   \<and> fst (login FailsBeforeOpen (request ''alice'' ''p1'' '' DEV-1 '') (alice_world []))
     = Inr server_error
   \<and> disk (snd (login FailsBeforeOpen (request ''alice'' ''p1'' '' DEV-1 '') (alice_world [])))
     = disk (alice_world [])"
proof -
  have alice:
    "users_on (disk (alice_world [])) = Some [account ''alice'' ''p1'' []]"
    "passes_validation (request ''alice'' ''p1'' '' DEV-1 '')"
    "request_field (request ''alice'' ''p1'' '' DEV-1 '') ''hwid'' = Some (JStr (utf16 '' DEV-1 ''))"
    "first_match [account ''alice'' ''p1'' []]
       (request_field (request ''alice'' ''p1'' '' DEV-1 '') ''username'') 0"
    "strict_equals (prop_of ([account ''alice'' ''p1'' []] ! 0) ''password'')
       (request_field (request ''alice'' ''p1'' '' DEV-1 '') ''password'')"
    "\<not> truthy (prop_of ([account ''alice'' ''p1'' []] ! 0) ''hwid'')"
    by (simp_all add: example_defs)
  have bob:
    "users_on (disk two_accounts)
       = Some [account ''alice'' ''p1'' ''DEV-1'', account ''bob'' ''p2'' []]"
    "passes_validation (request ''bob'' ''p2'' ''DEV-9'')"
    "request_field (request ''bob'' ''p2'' ''DEV-9'') ''hwid'' = Some (JStr (utf16 ''DEV-9''))"
    "first_match [account ''alice'' ''p1'' ''DEV-1'', account ''bob'' ''p2'' []]
       (request_field (request ''bob'' ''p2'' ''DEV-9'') ''username'') 1"
    "strict_equals
       (prop_of ([account ''alice'' ''p1'' ''DEV-1'', account ''bob'' ''p2'' []] ! 1) ''password'')
       (request_field (request ''bob'' ''p2'' ''DEV-9'') ''password'')"
    "\<not> truthy (prop_of ([account ''alice'' ''p1'' ''DEV-1'', account ''bob'' ''p2'' []] ! 1) ''hwid'')"
    by (simp_all add: example_defs)
  note written = first_login_registers[OF alice, of Succeeds]
  note failed = first_login_registers[OF alice, of FailsBeforeOpen]
  note other = first_login_registers[OF bob, of Succeeds]
  from written have kept: "\<And>k. k \<noteq> ''hwid'' \<Longrightarrow>
      field_on_disk
        (disk (snd (login Succeeds (request ''alice'' ''p1'' '' DEV-1 '') (alice_world [])))) 0 k
      = map_option reparse (prop_of ([account ''alice'' ''p1'' []] ! 0) k)"
    by simp
  from other have others: "\<And>j. j \<noteq> 1 \<Longrightarrow>
      record_on_disk (disk (snd (login Succeeds (request ''bob'' ''p2'' ''DEV-9'') two_accounts))) j
      = map_option reparse (record_on_disk (disk two_accounts) j)"
    by simp
  from written failed other kept[of "''username''"] kept[of "''password''"] others[of 0]
  show ?thesis
    by (simp add: example_defs trim_def record_on_disk_def)
qed

text \<open>
  Claim C2 as it is worded fails for a write that fails: the record of alice has an empty
  hwid and the request carries her username and password and a non-empty hwid, yet the
  answer is \<open>SERVER_ERROR\<close> and the next load of the store still shows the empty hwid.
\<close>

theorem first_login_registers_counterexample:
  "fst (login FailsBeforeOpen (request ''alice'' ''p1'' ''DEV-1'') (alice_world []))
     = Inr server_error
   \<and> stored_hwid
        (fst (loadUsers (snd (login FailsBeforeOpen (request ''alice'' ''p1'' ''DEV-1'')
                                (alice_world []))))) 0
     = Some (JStr [])"
  by (simp add: example_defs handler_defs stored_hwid_def)

text \<open>
  Claim C3, as amended: when a request reaches step 4 and the write fails, the answer is
  \<open>SERVER_ERROR\<close>, and the file is what the failed write left. When the write failed
  before the file was opened, the file is unchanged, and every later request is answered,
  and leaves the file, exactly as if the failed request had not been made. When the write
  left a file that cannot be parsed, every later login that passes steps 1 and 2 is answered
  \<open>INVALID_CREDENTIALS\<close>.
\<close>

theorem failed_persist_reports_server_error:
  assumes "users_on (disk w) = Some us"
    and "passes_validation body" and "request_field body ''hwid'' = Some (JStr h)"
    and "first_match us (request_field body ''username'') i"
    and "strict_equals (prop_of (us ! i) ''password'') (request_field body ''password'')"
    and "unbound (prop_of (us ! i) ''hwid'')"
    and "wr \<noteq> Succeeds"
  shows "fst (login wr body w) = Inr server_error
    \<and> disk (snd (login wr body w)) =
        (case wr of FailsAfterOpen left \<Rightarrow> left | other \<Rightarrow> disk w)
    \<and> (wr = FailsBeforeOpen \<longrightarrow>
         (\<forall>wr' body'.
            fst (login wr' body' (snd (login wr body w))) = fst (login wr' body' w)
            \<and> disk (snd (login wr' body' (snd (login wr body w))))
                = disk (snd (login wr' body' w))))
    \<and> (wr = FailsAfterOpen Unreadable \<longrightarrow>
         (\<forall>wr' body'. passes_validation body' \<longrightarrow>
            fst (login wr' body' (snd (login wr body w))) = Inr invalid_credentials))"
proof -
  note r = registration[OF assms(1-6), of wr]
  from r assms(7) have a: "fst (login wr body w) = Inr server_error" by simp
  from r have b: "disk (snd (login wr body w)) =
        (case wr of FailsAfterOpen left \<Rightarrow> left | other \<Rightarrow> disk w)"
    using assms(7) by (simp add: saveUsers_disk loadUsers_disk split: write_env.splits)
  have "wr = FailsBeforeOpen \<Longrightarrow> disk (snd (login wr body w)) = disk w"
    using b by simp
  note c = login_same_disk[OF this]
  have "wr = FailsAfterOpen Unreadable \<Longrightarrow>
      disk (snd (login wr body w)) = Absent \<or> disk (snd (login wr body w)) = Unreadable"
    using b by simp
  note d = login_empty_store(1)[OF this]
  from a b c d show ?thesis by blast
qed

theorem failed_persist_reports_server_error_witness:
  "fst (login FailsBeforeOpen (request ''alice'' ''p1'' ''DEV-1'') (alice_world []))
     = Inr server_error
   \<and> disk (snd (login FailsBeforeOpen (request ''alice'' ''p1'' ''DEV-1'') (alice_world [])))
     = disk (alice_world [])
   \<and> fst (login Succeeds (request ''alice'' ''p1'' ''DEV-2'')
          (snd (login FailsBeforeOpen (request ''alice'' ''p1'' ''DEV-1'') (alice_world []))))
     = fst (login Succeeds (request ''alice'' ''p1'' ''DEV-2'') (alice_world []))
   \<and> fst (login Succeeds (request ''alice'' ''p1'' ''DEV-1'')
          (snd (login (FailsAfterOpen Unreadable) (request ''alice'' ''p1'' ''DEV-1'')
                  (alice_world []))))
     = Inr invalid_credentials"
  using
    failed_persist_reports_server_error[of "alice_world []" "[account ''alice'' ''p1'' []]"
      "request ''alice'' ''p1'' ''DEV-1''" "utf16 ''DEV-1''" 0 FailsBeforeOpen]
    failed_persist_reports_server_error[of "alice_world []" "[account ''alice'' ''p1'' []]"
      "request ''alice'' ''p1'' ''DEV-1''" "utf16 ''DEV-1''" 0 "FailsAfterOpen Unreadable"]
  by (simp add: example_defs)

text \<open>
  Claim C3 as it is worded fails for a write that throws after the file was opened: the
  answer is \<open>SERVER_ERROR\<close>, but the file is no longer the one the request found.
\<close>

theorem failed_persist_reports_server_error_counterexample:
  "fst (login (FailsAfterOpen Unreadable) (request ''alice'' ''p1'' ''DEV-1'') (alice_world []))
     = Inr server_error
   \<and> disk (snd (login (FailsAfterOpen Unreadable) (request ''alice'' ''p1'' ''DEV-1'')
                  (alice_world [])))
     \<noteq> disk (alice_world [])"
  by (simp add: example_defs handler_defs)




text \<open>
  Claim C5: a request answered with \<open>MISSING_FIELDS\<close>, \<open>HWID_REQUIRED\<close>,
  \<open>INVALID_CREDENTIALS\<close>, \<open>HWID_MISMATCH\<close> or \<open>OK\<close> leaves the file as it was and
  makes no write call; a request that fails step 1 (username or password missing) is
  answered \<open>MISSING_FIELDS\<close> without any call on the file system, so the store is not even
  read.
\<close>

theorem rejected_or_ok_leaves_store:
  assumes "fst (login wr body w) = Inr r"
    and "code r \<in> {MISSING_FIELDS, HWID_REQUIRED, INVALID_CREDENTIALS, HWID_MISMATCH, OK}"
  shows "disk (snd (login wr body w)) = disk w
    \<and> WriteFileSync \<notin> set (calls_since w (snd (login wr body w)))
    \<and> (\<not> truthy (request_field body ''username'') \<or> \<not> truthy (request_field body ''password'')
         \<longrightarrow> code r = MISSING_FIELDS \<and> snd (login wr body w) = w)"
proof (cases "passes_validation body")
  case False
  from login_stopped[OF False, of wr w] assms(1) show ?thesis
    by (auto simp: calls_since_def response_codes)
next
  case True
  from login_validated[OF True, of wr w] obtain h where
    l: "login wr body w =
       authenticate wr (request_field body ''username'') (request_field body ''password'') h w"
    by blast
  obtain x w' where a: "authenticate wr (request_field body ''username'') (request_field body ''password'') h w = (x, w')"
    by (cases "authenticate wr (request_field body ''username'') (request_field body ''password'') h w")
  from assms(1) l a have x: "x = Inr r" by simp
  from authenticate_shape[OF a] x assms(2) have w': "w' = snd (loadUsers w)"
    by (auto simp: response_codes split: if_splits)
  from True have "truthy (request_field body ''username'')" "truthy (request_field body ''password'')"
    by (simp_all add: passes_validation_def)
  with w' l a show ?thesis
    by (simp add: loadUsers_disk loadUsers_calls calls_since_def)
qed

theorem rejected_or_ok_leaves_store_witness:
  "snd (login Succeeds (request [] ''p1'' ''DEV-1'') (alice_world [])) = alice_world []
   \<and> disk (snd (login Succeeds (request ''alice'' ''p1'' ''DEV-2'') (alice_world ''DEV-1'')))
     = disk (alice_world ''DEV-1'')
   \<and> WriteFileSync
       \<notin> set (calls_since (alice_world ''DEV-1'')
                (snd (login Succeeds (request ''alice'' ''p1'' ''DEV-2'') (alice_world ''DEV-1''))))"
proof -
  have missing: "fst (login Succeeds (request [] ''p1'' ''DEV-1'') (alice_world []))
      = Inr missing_fields"
    by (simp add: example_defs handler_defs)
  have mismatch: "fst (login Succeeds (request ''alice'' ''p1'' ''DEV-2'') (alice_world ''DEV-1''))
      = Inr hwid_mismatch"
    by (simp add: example_defs handler_defs)
  from rejected_or_ok_leaves_store[OF missing] rejected_or_ok_leaves_store[OF mismatch]
  show ?thesis by (simp add: response_codes example_defs)
qed

text \<open>
  Claim C6: loading an absent file gives the empty store and logs nothing; loading a file
  that exists but cannot be read or parsed gives the empty store too, writes one line on
  the error console and raises nothing; and as long as the file stays that way, every
  login that passes steps 1 and 2 is answered \<open>INVALID_CREDENTIALS\<close>.
\<close>

theorem load_fails_open:
  assumes "disk w = Absent \<or> disk w = Unreadable"
  shows "fst (loadUsers w) = empty_store
    \<and> console (snd (loadUsers w)) =
        console w @ (if disk w = Unreadable then [''Failed to read users.json:''] else [])
    \<and> (list_all (\<lambda>(wr, body). passes_validation body) reqs \<longrightarrow>
         list_all (\<lambda>r. r = Inr invalid_credentials) (fst (serve reqs w))
         \<and> disk (snd (serve reqs w)) = disk w)"
proof -
  have "list_all (\<lambda>(wr, body). passes_validation body) reqs \<Longrightarrow>
         list_all (\<lambda>r. r = Inr invalid_credentials) (fst (serve reqs w))
         \<and> disk (snd (serve reqs w)) = disk w"
    using assms
  proof (induction reqs arbitrary: w)
    case Nil
    then show ?case by simp
  next
    case (Cons a reqs)
    obtain wr body where a: "a = (wr, body)" by (cases a)
    with Cons.prems have p: "passes_validation body" by simp
    note l = login_empty_store[OF Cons.prems(2) p, of wr]
    from Cons.prems(2) l(2) have d: "disk (snd (login wr body w)) = Absent \<or> disk (snd (login wr body w)) = Unreadable"
      by simp
    from Cons.prems(1) have "list_all (\<lambda>(wr, body). passes_validation body) reqs" by simp
    from Cons.IH[OF this d] l show ?case
      by (simp add: a split_beta)
  qed
  moreover from assms have "fst (loadUsers w) = empty_store"
    by (auto simp: loadUsers_data)
  moreover from assms have "console (snd (loadUsers w)) =
        console w @ (if disk w = Unreadable then [''Failed to read users.json:''] else [])"
    by (auto simp: loadUsers_def called_def log_error_def)
  ultimately show ?thesis by blast
qed

theorem load_fails_open_witness:
  "fst (loadUsers (world_with Unreadable)) = empty_store
   \<and> console (snd (loadUsers (world_with Unreadable))) = [''Failed to read users.json:'']
   \<and> list_all (\<lambda>r. r = Inr invalid_credentials)
        (fst (serve [(Succeeds, request ''alice'' ''p1'' ''DEV-1'')] (world_with Unreadable)))
   \<and> fst (loadUsers (world_with Absent)) = empty_store
   \<and> console (snd (loadUsers (world_with Absent))) = []
   \<and> list_all (\<lambda>r. r = Inr invalid_credentials)
        (fst (serve [(Succeeds, request ''alice'' ''p1'' ''DEV-1'')] (world_with Absent)))"
  using
    load_fails_open[of "world_with Unreadable" "[(Succeeds, request ''alice'' ''p1'' ''DEV-1'')]"]
    load_fails_open[of "world_with Absent" "[(Succeeds, request ''alice'' ''p1'' ''DEV-1'')]"]
  by (simp add: world_with_def passes_validation_def usable_hwid_def blank_def is_whitespace_def
      request_def account_def request_field_def prop_of_def utf16_def)

text \<open>
  Claim C7: when a request is answered \<open>OK\<close>, the same request repeated any number of
  times, whatever the file system would do to a write, is answered \<open>OK\<close> every time and
  the file stays as it was.
\<close>

theorem ok_login_idempotent:
  assumes "fst (login wr body w) = Inr r" and "code r = OK"
  shows "list_all (\<lambda>x. x = Inr login_ok) (fst (serve (repeated body envs) (snd (login wr body w))))
    \<and> length (fst (serve (repeated body envs) (snd (login wr body w)))) = length envs
    \<and> disk (snd (serve (repeated body envs) (snd (login wr body w)))) = disk w"
proof -
  from login_ok_again[OF assms refl, of wr] have "disk (snd (login wr body w)) = disk w"
    by simp
  from serve_repeated_ok[OF assms this] show ?thesis .
qed

theorem ok_login_idempotent_witness:
  "list_all (\<lambda>x. x = Inr login_ok)
     (fst (serve (repeated (request ''alice'' ''p1'' ''DEV-1'')
                    [Succeeds, FailsBeforeOpen, FailsAfterOpen Unreadable])
            (snd (login Succeeds (request ''alice'' ''p1'' ''DEV-1'') (alice_world ''DEV-1'')))))
   \<and> disk (snd (serve (repeated (request ''alice'' ''p1'' ''DEV-1'')
                         [Succeeds, FailsBeforeOpen, FailsAfterOpen Unreadable])
                  (snd (login Succeeds (request ''alice'' ''p1'' ''DEV-1'')
                          (alice_world ''DEV-1'')))))
     = disk (alice_world ''DEV-1'')"
proof -
  have ok: "fst (login Succeeds (request ''alice'' ''p1'' ''DEV-1'') (alice_world ''DEV-1''))
      = Inr login_ok"
    by (simp add: example_defs handler_defs)
  from ok_login_idempotent[OF ok, of "[Succeeds, FailsBeforeOpen, FailsAfterOpen Unreadable]"]
  show ?thesis by (simp add: response_codes)
qed

text \<open>
  Claim C9, as amended: a stored hwid that is a non-empty string of white space only counts
  as unbound: a request with the record's username and password and a usable hwid reaches
  the write, and is answered \<open>HWID_REGISTERED\<close> when the write succeeds and
  \<open>SERVER_ERROR\<close> when it fails, never \<open>HWID_MISMATCH\<close>. After a write that succeeded, the
  record's hwid in the file is the supplied string in place of the white space, and every
  other property of the record, and every other record, is what the file gives back of the
  one that was there. After a write that failed before the file was opened, the white space
  is still the record's hwid.
\<close>

theorem blank_hwid_is_overwritten:
  assumes "users_on (disk w) = Some us"
    and "passes_validation body" and "request_field body ''hwid'' = Some (JStr h)"
    and "first_match us (request_field body ''username'') i"
    and "strict_equals (prop_of (us ! i) ''password'') (request_field body ''password'')"
    and "prop_of (us ! i) ''hwid'' = Some (JStr s)" and "s \<noteq> []" and "blank s"
  shows "fst (login wr body w) = Inr (if wr = Succeeds then hwid_registered else server_error)
    \<and> WriteFileSync \<in> set (calls_since w (snd (login wr body w)))
    \<and> (wr = Succeeds \<longrightarrow>
         hwid_on_disk (disk (snd (login wr body w))) i = Some (JStr h)
         \<and> (\<forall>k. k \<noteq> ''hwid'' \<longrightarrow>
              field_on_disk (disk (snd (login wr body w))) i k
                = map_option reparse (prop_of (us ! i) k))
         \<and> (\<forall>j. j \<noteq> i \<longrightarrow>
              record_on_disk (disk (snd (login wr body w))) j
                = map_option reparse (record_on_disk (disk w) j)))
    \<and> (wr = FailsBeforeOpen \<longrightarrow>
         field_on_disk (disk (snd (login wr body w))) i ''hwid'' = Some (JStr s))"
proof -
  from assms(2) have n: "request_field body ''username'' \<noteq> None"
    by (rule validated_name)
  from first_match_object[OF n assms(4)] obtain props where
    i: "i < length us" "us ! i = JObj props" by blast
  from assms(6,8) have u: "unbound (prop_of (us ! i) ''hwid'')" by (simp add: unbound_def)
  note r = registration[OF assms(1-5) u, of wr]
  have a: "fst (login wr body w) = Inr (if wr = Succeeds then hwid_registered else server_error)"
    unfolding r by simp
  have b: "WriteFileSync \<in> set (calls_since w (snd (login wr body w)))"
    unfolding r by (simp add: calls_since_def saveUsers_calls loadUsers_calls)
  have c: "field_on_disk (disk (snd (login wr body w))) i ''hwid'' = Some (JStr s)"
    if "wr = FailsBeforeOpen"
    unfolding r using that assms(1,6) i(1)
    by (simp add: saveUsers_disk loadUsers_disk field_on_disk_def record_on_disk_def)
  have d: "hwid_on_disk (disk (snd (login wr body w))) i = Some (JStr h)
         \<and> (\<forall>k. k \<noteq> ''hwid'' \<longrightarrow>
              field_on_disk (disk (snd (login wr body w))) i k
                = map_option reparse (prop_of (us ! i) k))
         \<and> (\<forall>j. j \<noteq> i \<longrightarrow>
              record_on_disk (disk (snd (login wr body w))) j
                = map_option reparse (record_on_disk (disk w) j))" if s: "wr = Succeeds"
  proof -
    have w': "disk (snd (login wr body w)) = disk (snd (saveUsers Succeeds
            (with_user (fst (loadUsers w)) i (assign_hwid (us ! i) (JStr h))) (snd (loadUsers w))))"
      using r s by simp
    from registered_on_disk[OF assms(1) i, of h "snd (loadUsers w)"] registered_fields[OF assms(1) i w']
    show ?thesis unfolding w' by simp
  qed
  from a b c d show ?thesis by blast
qed

theorem blank_hwid_is_overwritten_witness:
  "fst (login Succeeds (request ''alice'' ''p1'' ''DEV-1'') (alice_world '' ''))
     = Inr hwid_registered
   \<and> WriteFileSync
       \<in> set (calls_since (alice_world '' '')
                (snd (login Succeeds (request ''alice'' ''p1'' ''DEV-1'') (alice_world '' ''))))
   \<and> hwid_on_disk
        (disk (snd (login Succeeds (request ''alice'' ''p1'' ''DEV-1'') (alice_world '' '')))) 0
     = Some (JStr (utf16 ''DEV-1''))
   \<and> field_on_disk
        (disk (snd (login Succeeds (request ''alice'' ''p1'' ''DEV-1'') (alice_world '' ''))))
        0 ''username''
     = Some (JStr (utf16 ''alice''))
   \<and> field_on_disk
        (disk (snd (login Succeeds (request ''alice'' ''p1'' ''DEV-1'') (alice_world '' ''))))
        0 ''password''
     = Some (JStr (utf16 ''p1''))
   \<and> fst (login FailsBeforeOpen (request ''alice'' ''p1'' ''DEV-1'') (alice_world '' ''))
     = Inr server_error
   \<and> field_on_disk
        (disk (snd (login FailsBeforeOpen (request ''alice'' ''p1'' ''DEV-1'')
                      (alice_world '' ''))))
        0 ''hwid''
     = Some (JStr (utf16 '' ''))"
proof -
  have alice:
    "users_on (disk (alice_world '' '')) = Some [account ''alice'' ''p1'' '' '']"
    "passes_validation (request ''alice'' ''p1'' ''DEV-1'')"
    "request_field (request ''alice'' ''p1'' ''DEV-1'') ''hwid'' = Some (JStr (utf16 ''DEV-1''))"
    "first_match [account ''alice'' ''p1'' '' '']
       (request_field (request ''alice'' ''p1'' ''DEV-1'') ''username'') 0"
    "strict_equals (prop_of ([account ''alice'' ''p1'' '' ''] ! 0) ''password'')
       (request_field (request ''alice'' ''p1'' ''DEV-1'') ''password'')"
    "prop_of ([account ''alice'' ''p1'' '' ''] ! 0) ''hwid'' = Some (JStr (utf16 '' ''))"
    "utf16 '' '' \<noteq> []"
    "blank (utf16 '' '')"
    by (simp_all add: example_defs)
  note written = blank_hwid_is_overwritten[OF alice, of Succeeds]
  note failed = blank_hwid_is_overwritten[OF alice, of FailsBeforeOpen]
  from written have kept: "\<And>k. k \<noteq> ''hwid'' \<Longrightarrow>
      field_on_disk
        (disk (snd (login Succeeds (request ''alice'' ''p1'' ''DEV-1'') (alice_world '' '')))) 0 k
      = map_option reparse (prop_of ([account ''alice'' ''p1'' '' ''] ! 0) k)"
    by simp
  from written failed kept[of "''username''"] kept[of "''password''"]
  show ?thesis
    by (simp add: example_defs)
qed

text \<open>
  Claim C9 as it is worded fails for a write that fails: the stored hwid of alice is one
  space and the request has her credentials and a usable hwid, yet the answer is
  \<open>SERVER_ERROR\<close> and the space is still her hwid in the file.
\<close>

theorem blank_hwid_is_overwritten_counterexample:
  "fst (login FailsBeforeOpen (request ''alice'' ''p1'' ''DEV-1'') (alice_world '' ''))
     = Inr server_error
   \<and> hwid_on_disk
        (disk (snd (login FailsBeforeOpen (request ''alice'' ''p1'' ''DEV-1'')
                      (alice_world '' '')))) 0
     = Some (JStr (utf16 '' ''))"
  by (simp add: example_defs handler_defs hwid_on_disk_def stored_hwid_def)

text \<open>
  Claim C10: the recovery of \<open>loadUsers\<close> covers only a file that cannot be read or
  parsed. When the file holds JSON whose top-level value has no array under \<open>users\<close>,
  \<open>loadUsers\<close> returns that value as it is, and the lookup of a request that reaches
  step 3 throws, so the request gets an exception and none of the outcome codes.
\<close>

theorem malformed_store_throws:
  assumes "disk w = Json v" "\<forall>us. prop_of v ''users'' \<noteq> Some (JArr us)" "passes_validation body"
  shows "fst (loadUsers w) = v \<and> fst (login wr body w) = Inl TypeError"
proof -
  from assms(1,2) have "users_on (disk w) = None"
    by (auto simp: users_on_def split: option.splits json.splits)
  from authenticate_malformed[OF this] login_validated[OF assms(3), of wr w] assms(1)
  show ?thesis by (auto simp: loadUsers_data)
qed

theorem malformed_store_throws_witness:
  "fst (login Succeeds (request ''alice'' ''p1'' ''DEV-1'') (world_with (Json (JArr []))))
     = Inl TypeError
   \<and> fst (login Succeeds (request ''alice'' ''p1'' ''DEV-1'')
          (world_with (Json (JStr (utf16 ''users''))))) = Inl TypeError
   \<and> fst (login Succeeds (request ''alice'' ''p1'' ''DEV-1'')
          (world_with (Json (JObj [(''accounts'', JArr [])])))) = Inl TypeError"
  using malformed_store_throws[of "world_with (Json (JArr []))" "JArr []"
      "request ''alice'' ''p1'' ''DEV-1''" Succeeds]
    malformed_store_throws[of "world_with (Json (JStr (utf16 ''users'')))"
      "JStr (utf16 ''users'')" "request ''alice'' ''p1'' ''DEV-1''" Succeeds]
    malformed_store_throws[of "world_with (Json (JObj [(''accounts'', JArr [])]))"
      "JObj [(''accounts'', JArr [])]" "request ''alice'' ''p1'' ''DEV-1''" Succeeds]
  by (simp add: world_with_def passes_validation_def usable_hwid_def blank_def is_whitespace_def
      request_def account_def request_field_def prop_of_def utf16_def)

end
